theory Spec2Isabelle
  imports Main "HOL-Library.Multiset"
begin

section \<open>The data model of the article-injections form\<close>

text \<open>
  The form edits a value of type \<^verbatim>\<open>FormData\<close>, the type inferred from
  \<^verbatim>\<open>formSchema\<close>: a list of injections, each with an id, a source field and
  a list of selectors; a selector has an id, a label and a CSS selector, all strings.
  Both objects of the source call their identifier \<^verbatim>\<open>id\<close>; the records below
  name the two fields \<open>sel_id\<close> and \<open>inj_id\<close>, since \<open>id\<close> is the identity
  function of HOL and two records cannot share a field name.
\<close>

record selector =
  sel_id :: string
  label :: string
  cssSelector :: string

record injection =
  inj_id :: string
  sourceField :: string
  selectors :: "selector list"

record FormData =
  injections :: "injection list"

section \<open>The validation schema\<close>

text \<open>
  \<^verbatim>\<open>formSchema\<close> is a schema of the validation library: every field carries a
  list of named tests, and a test that fails yields an error for the path of the field,
  with the name of the test and its message. The form's resolver runs the schema without
  stopping at the first failure, so the outcome of a validation is the list of the errors
  of all failing tests. A path is one of the six kinds of field the schema has a test for.
  The message is \<open>None\<close> where the source passes none and the library's default
  text applies.
\<close>

datatype field_path =
    Path_injection_id nat
  | Path_sourceField nat
  | Path_selectors nat
  | Path_selector_id nat nat
  | Path_label nat nat
  | Path_cssSelector nat nat

datatype test_name = Test_required | Test_unique | Test_min

datatype validation_error = ValidationError field_path test_name "string option"

text \<open>
  \<^verbatim>\<open>string().required(msg)\<close>: the library's test for a required string fails on
  the empty string (the form's fields are always strings, never absent).
\<close>

definition string_required :: "field_path \<Rightarrow> string option \<Rightarrow> string \<Rightarrow> validation_error list" where
  "string_required p msg value =
     (if value = [] then [ValidationError p Test_required msg] else [])"

text \<open>
  The test named \<^verbatim>\<open>unique\<close> on a label. Its second argument is the value of
  \<^verbatim>\<open>context.from[1]\<close>, the injection that holds the selector whose label is tested:
  \<^verbatim>\<open>
  const { selectors } = context.from?.[1].value as ArticleInjection;
  const names = selectors.map((s) => s.label);
  return !names.length || names.filter((n) => n === value).length === 1;
  \<close>
  It returns true when the test passes.
\<close>

definition unique :: "string \<Rightarrow> injection \<Rightarrow> bool" where
  "unique value injn =
     (let names = map label (selectors injn)
      in length names = 0 \<or> length (filter (\<lambda>n. n = value) names) = 1)"

definition required_field_message :: string where
  "required_field_message = ''This is a required field''"

definition duplicate_label_message :: string where
  "duplicate_label_message = ''Cannot have duplicate placeholder labels''"

definition duplicate_label_error :: "nat \<Rightarrow> nat \<Rightarrow> validation_error" where
  "duplicate_label_error i j =
     ValidationError (Path_label i j) Test_unique (Some duplicate_label_message)"

definition validate_label :: "nat \<Rightarrow> injection \<Rightarrow> nat \<Rightarrow> string \<Rightarrow> validation_error list" where
  "validate_label i injn j value =
     string_required (Path_label i j) (Some required_field_message) value @
     (if unique value injn then [] else [duplicate_label_error i j])"

definition validate_selector :: "nat \<Rightarrow> injection \<Rightarrow> nat \<Rightarrow> selector \<Rightarrow> validation_error list" where
  "validate_selector i injn j s =
     string_required (Path_selector_id i j) None (sel_id s) @
     validate_label i injn j (label s) @
     string_required (Path_cssSelector i j) (Some required_field_message) (cssSelector s)"

text \<open>
  \<^verbatim>\<open>array(...).required().min(1)\<close>: every element is validated, and the test
  \<^verbatim>\<open>min\<close> fails when the array has fewer than one element. The array itself is
  always present in the form's value.
\<close>

definition min_selectors_error :: "nat \<Rightarrow> validation_error" where
  "min_selectors_error i = ValidationError (Path_selectors i) Test_min None"

definition validate_selectors :: "nat \<Rightarrow> injection \<Rightarrow> validation_error list" where
  "validate_selectors i injn =
     concat (map (\<lambda>(j, s). validate_selector i injn j s) (enumerate 0 (selectors injn))) @
     (if length (selectors injn) < 1 then [min_selectors_error i] else [])"

definition validate_injection :: "nat \<Rightarrow> injection \<Rightarrow> validation_error list" where
  "validate_injection i injn =
     string_required (Path_injection_id i) None (inj_id injn) @
     string_required (Path_sourceField i) None (sourceField injn) @
     validate_selectors i injn"

definition formSchema :: "FormData \<Rightarrow> validation_error list" where
  "formSchema form =
     concat (map (\<lambda>(i, injn). validate_injection i injn) (enumerate 0 (injections form)))"

section \<open>Field arrays\<close>


definition remove_fieldArray :: "'a list \<Rightarrow> nat \<Rightarrow> 'a list" where
  "remove_fieldArray fieldValues index = take index fieldValues @ drop (Suc index) fieldValues"

text \<open>
  The field array of a selector row and of an injection group is the one named
  \<^verbatim>\<open>injections.${injectionIndex}.selectors\<close>: an operation on it changes the
  selectors of the injection at that position and nothing else. A group and its rows are
  rendered for the positions of the injections list only, so there is no control to
  operate for any other position, and the form stays as it is.
\<close>

definition update_selectors :: "nat \<Rightarrow> (selector list \<Rightarrow> selector list) \<Rightarrow> FormData \<Rightarrow> FormData" where
  "update_selectors injectionIndex f form =
     (if injectionIndex < length (injections form)
      then form\<lparr>injections := (injections form)
             [injectionIndex := (injections form ! injectionIndex)
                \<lparr>selectors := f (selectors (injections form ! injectionIndex))\<rparr>]\<rparr>
      else form)"

section \<open>The selector row: the delete control\<close>

text \<open>
  \<^verbatim>\<open>
  <CloseButton aria-label="Delete" isDisabled={selectors.length === 1}
               onClick={() => remove(selectorIndex)} />
  \<close>
  The handler calls \<^verbatim>\<open>remove\<close> with no test of its own. A disabled button does not
  run its handler, so a click on the control is the handler when the control is enabled
  and nothing otherwise.
\<close>

definition CloseButton_isDisabled :: "selector list \<Rightarrow> bool" where
  "CloseButton_isDisabled sels = (length sels = 1)"

definition CloseButton_onClick :: "selector list \<Rightarrow> nat \<Rightarrow> selector list" where
  "CloseButton_onClick sels selectorIndex = remove_fieldArray sels selectorIndex"

definition CloseButton_click :: "selector list \<Rightarrow> nat \<Rightarrow> selector list" where
  "CloseButton_click sels selectorIndex =
     (if CloseButton_isDisabled sels then sels else CloseButton_onClick sels selectorIndex)"

text \<open>
  The delete actions a user can take on the form: the delete control of the selector row
  \<open>j\<close> of the injection \<open>i\<close>, and the Delete button of the injection \<open>i\<close>, whose
  handler is \<^verbatim>\<open>remove(fieldIndex)\<close> on the injections list (it also resets which
  accordion item is open, which is no part of the form's value).
\<close>

datatype delete_action = Delete_selector nat nat | Delete_injection nat

fun delete_step :: "FormData \<Rightarrow> delete_action \<Rightarrow> FormData" where
  "delete_step form (Delete_selector i j) =
     update_selectors i (\<lambda>sels. CloseButton_click sels j) form"
| "delete_step form (Delete_injection i) =
     form\<lparr>injections := remove_fieldArray (injections form) i\<rparr>"

definition selectors_nonempty :: "FormData \<Rightarrow> bool" where
  "selectors_nonempty form = list_all (\<lambda>injn. selectors injn \<noteq> []) (injections form)"

section \<open>The injection group: adding a selector\<close>





section \<open>The selector row: the preview input\<close>

text \<open>
  \<^verbatim>\<open>
  const [injection, selector] = watch([`injections.${injectionIndex}`,
      `injections.${injectionIndex}.selectors.${selectorIndex}`]);
  const previewInput = useMemo(
    () => [{ id: injection.id, selectors: [selector], sourceField: injection.sourceField }],
    [injection.sourceField, selector.cssSelector, selector.label]);
  \<close>
  \<^verbatim>\<open>watch\<close> reads the two values out of the form; a position that does not exist gives
  \<^verbatim>\<open>undefined\<close>, and reading a property of it throws, which is \<open>None\<close> here.
  \<^verbatim>\<open>useMemo\<close> keeps, between the renders of one row, the dependencies and the value
  of the last computation: on the first render (no cell yet) and whenever a dependency
  differs from the kept one it calls the factory, otherwise it returns the kept value.
  The dependencies are strings, which the hook compares by value.
\<close>

definition watch :: "FormData \<Rightarrow> nat \<Rightarrow> nat \<Rightarrow> (injection \<times> selector) option" where
  "watch form injectionIndex selectorIndex =
     (if injectionIndex < length (injections form)
      then (let injn = injections form ! injectionIndex
            in if selectorIndex < length (selectors injn)
               then Some (injn, selectors injn ! selectorIndex) else None)
      else None)"

definition useMemo :: "('d \<times> 'a) option \<Rightarrow> (unit \<Rightarrow> 'a) \<Rightarrow> 'd \<Rightarrow> 'd \<times> 'a" where
  "useMemo cell factory deps =
     (case cell of
        None \<Rightarrow> (deps, factory ())
      | Some (kept_deps, kept) \<Rightarrow>
          if kept_deps = deps then (kept_deps, kept) else (deps, factory ()))"

definition previewInput_factory :: "injection \<Rightarrow> selector \<Rightarrow> injection list" where
  "previewInput_factory injn sel =
     [\<lparr>inj_id = inj_id injn, sourceField = sourceField injn, selectors = [sel]\<rparr>]"

definition previewInput_deps :: "injection \<Rightarrow> selector \<Rightarrow> string \<times> string \<times> string" where
  "previewInput_deps injn sel = (sourceField injn, cssSelector sel, label sel)"

type_synonym previewInput_cell = "(string \<times> string \<times> string) \<times> injection list"

definition previewInput :: "previewInput_cell option \<Rightarrow> injection \<Rightarrow> selector \<Rightarrow> previewInput_cell" where
  "previewInput cell injn sel =
     useMemo cell (\<lambda>_. previewInput_factory injn sel) (previewInput_deps injn sel)"

definition SelectorForm_previewInput ::
  "previewInput_cell option \<Rightarrow> FormData \<Rightarrow> nat \<Rightarrow> nat \<Rightarrow> previewInput_cell option" where
  "SelectorForm_previewInput cell form injectionIndex selectorIndex =
     (case watch form injectionIndex selectorIndex of
        None \<Rightarrow> None
      | Some (injn, sel) \<Rightarrow> Some (previewInput cell injn sel))"

text \<open>The successive renders of one row, each with the injection and selector it watches.\<close>

fun previewInput_renders ::
  "previewInput_cell option \<Rightarrow> (injection \<times> selector) list \<Rightarrow> previewInput_cell option" where
  "previewInput_renders cell [] = cell"
| "previewInput_renders cell ((injn, sel) # rest) =
     previewInput_renders (Some (previewInput cell injn sel)) rest"

section \<open>The form controller: submit\<close>

text \<open>
  The form library holds the current value of the form, the default value it compares
  the current value with (the dirty baseline: the form is dirty when the two differ) and
  the errors of the last validation. \<^verbatim>\<open>reset(data)\<close> makes \<open>data\<close> both the
  current and the default value and clears the errors. The field of the current value is
  named \<open>formValues\<close>, as the library names it.
\<close>

record form_control =
  formValues :: FormData
  defaultValues :: FormData
  errors :: "validation_error list"

definition isDirty :: "form_control \<Rightarrow> bool" where
  "isDirty c = (formValues c \<noteq> defaultValues c)"

definition reset :: "FormData \<Rightarrow> form_control \<Rightarrow> form_control" where
  "reset d c = c\<lparr>formValues := d, defaultValues := d, errors := []\<rparr>"

text \<open>
  The argument of \<^verbatim>\<open>mutateAsync\<close> is
  \<^verbatim>\<open>{ feedId: userFeed.id, data: { articleInjections: data.injections } }\<close>.
  The mutation itself (\<^verbatim>\<open>useUpdateUserFeed\<close>) is not part of the source: it is the
  parameter \<open>mutateAsync\<close>, which either resolves (\<open>Inr\<close>) or rejects with an error
  that has a message (\<open>Inl\<close>).
\<close>

record mutation_data =
  articleInjections :: "injection list"

record mutation_variables =
  mutation_feedId :: string
  mutation_data :: mutation_data

record js_error =
  message :: string

datatype notification = notifySuccess string | notifyError string string

text \<open>
  What a submit can change: the form, the notifications shown, and the calls made to
  \<^verbatim>\<open>mutateAsync\<close>, which are recorded in the order they are made.
\<close>

record page =
  control :: form_control
  notifications :: "notification list"
  mutations :: "mutation_variables list"

text \<open>
  \<^verbatim>\<open>
  const onSubmit = async (data: FormData) => {
    try {
      await mutateAsync({ feedId: userFeed.id, data: { articleInjections: data.injections } });
      reset(data);
      notifySuccess(t("common.success.savedChanges"));
    } catch (err) {
      notifyError(t("common.errors.failedToSave"), (err as Error).message);
    }
  };
  \<close>
  \<open>t\<close> is the translation function and \<open>userFeed_id\<close> the id of the feed of the
  page's context.
\<close>

definition onSubmit ::
  "(string \<Rightarrow> string) \<Rightarrow> string \<Rightarrow> (mutation_variables \<Rightarrow> js_error + 'r) \<Rightarrow>
   FormData \<Rightarrow> page \<Rightarrow> page" where
  "onSubmit t userFeed_id mutateAsync d pg =
     (let vars = \<lparr>mutation_feedId = userFeed_id,
                  mutation_data = \<lparr>articleInjections = injections d\<rparr>\<rparr>;
          called = pg\<lparr>mutations := mutations pg @ [vars]\<rparr>
      in case mutateAsync vars of
           Inr _ \<Rightarrow>
             called\<lparr>control := reset d (control called),
                    notifications := notifications called @
                      [notifySuccess (t ''common.success.savedChanges'')]\<rparr>
         | Inl err \<Rightarrow>
             called\<lparr>notifications := notifications called @
                      [notifyError (t ''common.errors.failedToSave'') (message err)]\<rparr>)"

text \<open>
  \<^verbatim>\<open>handleSubmit(onSubmit)\<close> with the resolver \<^verbatim>\<open>yupResolver(formSchema)\<close>:
  the form library validates the current value; when there is no error it calls the
  handler with the value, otherwise it stores the errors and does not call it.
\<close>

definition handleSubmit :: "(FormData \<Rightarrow> page \<Rightarrow> page) \<Rightarrow> page \<Rightarrow> page" where
  "handleSubmit onValid pg =
     (let errs = formSchema (formValues (control pg))
      in if errs = []
         then onValid (formValues (control pg)) (pg\<lparr>control := (control pg)\<lparr>errors := []\<rparr>\<rparr>)
         else pg\<lparr>control := (control pg)\<lparr>errors := errs\<rparr>\<rparr>)"

section \<open>The feed-update client\<close>

text \<open>
  \<^verbatim>\<open>
  export interface UpdateFeedInput { feedId: string; details: { text?: Feed['text'] } }
  \<close>
  The interface declares the optional key \<^verbatim>\<open>text\<close> for the details. It is erased
  at run time, and an object with further keys is a value of the declared type as well,
  so the details are modelled as the object they are: its own keys with their values, in
  the order of insertion, the value being \<open>None\<close> where it is
  \<^verbatim>\<open>undefined\<close>. The type \<^verbatim>\<open>Feed\<close> is not part of the source; a value is
  taken as the JSON value it serialises to.
\<close>

datatype json =
    JSON_null
  | JSON_string string
  | JSON_array "json list"
  | JSON_object "(string \<times> json) list"

type_synonym js_object = "(string \<times> json option) list"

record UpdateFeedInput =
  feedId :: string
  details :: js_object

text \<open>
  \<^verbatim>\<open>JSON.stringify(options.details)\<close>: the object with every own key of the details
  whose value is defined, in the order of the keys. The body is kept as the JSON value
  that the serialised text denotes.
\<close>

definition JSON_stringify :: "js_object \<Rightarrow> json" where
  "JSON_stringify obj =
     JSON_object (concat (map (\<lambda>(k, v). case v of None \<Rightarrow> [] | Some j \<Rightarrow> [(k, j)]) obj))"

fun object_members :: "json \<Rightarrow> (string \<times> json) list" where
  "object_members (JSON_object members) = members"
| "object_members _ = []"

text \<open>
  The injections list of the form as a JSON value:
  \<^verbatim>\<open>[{ id, sourceField, selectors: [{ id, label, cssSelector }] }]\<close>.
\<close>

definition selector_json :: "selector \<Rightarrow> json" where
  "selector_json s =
     JSON_object [(''id'', JSON_string (sel_id s)), (''label'', JSON_string (label s)),
       (''cssSelector'', JSON_string (cssSelector s))]"

definition injection_json :: "injection \<Rightarrow> json" where
  "injection_json injn =
     JSON_object [(''id'', JSON_string (inj_id injn)),
       (''sourceField'', JSON_string (sourceField injn)),
       (''selectors'', JSON_array (map selector_json (selectors injn)))]"

definition injections_json :: "injection list \<Rightarrow> json" where
  "injections_json injs = JSON_array (map injection_json injs)"

record requestOptions =
  http_method :: string
  body :: json

text \<open>
  \<^verbatim>\<open>const UpdatFeedOutputSchema = object({ result: FeedSchema })\<close>. The schema
  \<^verbatim>\<open>FeedSchema\<close> is not part of the source and is a parameter: the predicate of the
  JSON values that match it.
\<close>

definition UpdatFeedOutputSchema :: "(json \<Rightarrow> bool) \<Rightarrow> json \<Rightarrow> bool" where
  "UpdatFeedOutputSchema FeedSchema js =
     (case js of
        JSON_object members \<Rightarrow>
          (case map_of members ''result'' of Some r \<Rightarrow> FeedSchema r | None \<Rightarrow> False)
      | _ \<Rightarrow> False)"

datatype http_reply = No_reply | Reply bool json

datatype fetch_failure = Transport_failure | Schema_mismatch

text \<open>
  Modelled from the spec: \<^verbatim>\<open>fetchRest\<close> (\<^verbatim>\<open>utils/fetchRest\<close>) is not part of
  the source. The spec says of the clients that use it that each builds a single request,
  awaits the response, validates the response body against a fixed expected shape, and
  either returns the validated result or fails with a transport or validation error, and
  that any schema mismatch or non-success transport status fails the call. The network is
  the parameter \<open>network\<close>: what comes back for a request, either no reply at all or a
  reply with its status (success or not) and its body. The result is paired with the
  requests issued.
\<close>

definition fetchRest ::
  "(string \<Rightarrow> requestOptions \<Rightarrow> http_reply) \<Rightarrow> string \<Rightarrow> requestOptions \<Rightarrow> (json \<Rightarrow> bool) \<Rightarrow>
   (fetch_failure + json) \<times> (string \<times> requestOptions) list" where
  "fetchRest network url opts validateSchema =
     (case network url opts of
        No_reply \<Rightarrow> Inl Transport_failure
      | Reply success js \<Rightarrow>
          if \<not> success then Inl Transport_failure
          else if validateSchema js then Inr js
          else Inl Schema_mismatch,
      [(url, opts)])"

text \<open>
  \<^verbatim>\<open>
  export const updateFeed = async (options: UpdateFeedInput) => fetchRest(
    `/api/v1/feeds/${options.feedId}`,
    { requestOptions: { method: 'PATCH', body: JSON.stringify(options.details) },
      validateSchema: UpdatFeedOutputSchema });
  \<close>
\<close>

definition updateFeed ::
  "(string \<Rightarrow> requestOptions \<Rightarrow> http_reply) \<Rightarrow> (json \<Rightarrow> bool) \<Rightarrow> UpdateFeedInput \<Rightarrow>
   (fetch_failure + json) \<times> (string \<times> requestOptions) list" where
  "updateFeed network FeedSchema options =
     fetchRest network (''/api/v1/feeds/'' @ feedId options)
       \<lparr>http_method = ''PATCH'', body = JSON_stringify (details options)\<rparr>
       (UpdatFeedOutputSchema FeedSchema)"

section \<open>Example values\<close>

text \<open>
  Concrete values on which the theorems below are exercised. The form is the one of the
  spec's scenario: one injection for the source field \<^verbatim>\<open>title\<close> with the
  selectors \<^verbatim>\<open>img\<close> and \<^verbatim>\<open>link\<close>.
\<close>

definition example_img :: selector where
  "example_img = \<lparr>sel_id = ''s1'', label = ''img'', cssSelector = ''img''\<rparr>"

definition example_link :: selector where
  "example_link = \<lparr>sel_id = ''s2'', label = ''link'', cssSelector = ''a''\<rparr>"

definition example_injection :: injection where
  "example_injection =
     \<lparr>inj_id = ''i1'', sourceField = ''title'', selectors = [example_img, example_link]\<rparr>"

definition example_form :: FormData where
  "example_form = \<lparr>injections = [example_injection]\<rparr>"

definition example_page :: page where
  "example_page =
     \<lparr>control = \<lparr>formValues = example_form, defaultValues = \<lparr>injections = []\<rparr>, errors = []\<rparr>,
      notifications = [], mutations = []\<rparr>"

definition example_empty_page :: page where
  "example_empty_page =
     \<lparr>control =
        \<lparr>formValues = \<lparr>injections = [\<lparr>inj_id = ''i1'', sourceField = ''title'', selectors = []\<rparr>]\<rparr>,
         defaultValues = \<lparr>injections = []\<rparr>, errors = []\<rparr>,
      notifications = [], mutations = []\<rparr>"

definition example_variables :: mutation_variables where
  "example_variables =
     \<lparr>mutation_feedId = ''feed-1'',
      mutation_data = \<lparr>articleInjections = injections example_form\<rparr>\<rparr>"

definition mutation_resolves :: "mutation_variables \<Rightarrow> js_error + unit" where
  "mutation_resolves vars = Inr ()"

definition mutation_rejects :: "mutation_variables \<Rightarrow> js_error + unit" where
  "mutation_rejects vars = Inl \<lparr>message = ''Network Error''\<rparr>"


text \<open>
  A server that answers every request with a success status and a body that has a
  \<^verbatim>\<open>result\<close>, one that answers with a body without it, one that answers with a
  failure status, and a network that gives no reply.
\<close>

definition network_result :: "string \<Rightarrow> requestOptions \<Rightarrow> http_reply" where
  "network_result url opts = Reply True (JSON_object [(''result'', JSON_object [])])"

definition network_no_result :: "string \<Rightarrow> requestOptions \<Rightarrow> http_reply" where
  "network_no_result url opts = Reply True (JSON_object [(''message'', JSON_string ''ok'')])"

definition network_failure_status :: "string \<Rightarrow> requestOptions \<Rightarrow> http_reply" where
  "network_failure_status url opts = Reply False (JSON_object [(''result'', JSON_object [])])"

definition network_down :: "string \<Rightarrow> requestOptions \<Rightarrow> http_reply" where
  "network_down url opts = No_reply"

text \<open>
  Details with the feed's text alone, and details that hold the injections of the example
  form as well.
\<close>

definition example_options :: UpdateFeedInput where
  "example_options =
     \<lparr>feedId = ''42'', details = [(''text'', Some (JSON_string ''New article''))]\<rparr>"

definition example_options_injections :: UpdateFeedInput where
  "example_options_injections =
     \<lparr>feedId = ''42'',
      details = [(''text'', None),
                 (''articleInjections'', Some (injections_json (injections example_form)))]\<rparr>"

text \<open>
  A form with two injections: the first has two selectors with the label \<^verbatim>\<open>img\<close>,
  the second has one selector with that label.
\<close>

definition example_duplicate_form :: FormData where
  "example_duplicate_form =
     \<lparr>injections =
        [\<lparr>inj_id = ''a'', sourceField = ''title'', selectors =
            [\<lparr>sel_id = ''1'', label = ''img'', cssSelector = ''img''\<rparr>,
             \<lparr>sel_id = ''2'', label = ''img'', cssSelector = ''a''\<rparr>]\<rparr>,
         \<lparr>inj_id = ''b'', sourceField = ''link'', selectors =
            [\<lparr>sel_id = ''3'', label = ''img'', cssSelector = ''p''\<rparr>]\<rparr>]\<rparr>"

text \<open>
  Two injections with the same labels, in another order and with other ids and CSS
  selectors.
\<close>

definition example_labels :: injection where
  "example_labels =
     \<lparr>inj_id = ''a'', sourceField = ''title'', selectors =
        [\<lparr>sel_id = ''1'', label = ''img'', cssSelector = ''img''\<rparr>,
         \<lparr>sel_id = ''2'', label = ''link'', cssSelector = ''a''\<rparr>,
         \<lparr>sel_id = ''3'', label = ''img'', cssSelector = ''p''\<rparr>]\<rparr>"

definition example_labels_permuted :: injection where
  "example_labels_permuted =
     \<lparr>inj_id = ''a'', sourceField = ''title'', selectors =
        [\<lparr>sel_id = ''7'', label = ''link'', cssSelector = ''div''\<rparr>,
         \<lparr>sel_id = ''8'', label = ''img'', cssSelector = ''span''\<rparr>,
         \<lparr>sel_id = ''9'', label = ''img'', cssSelector = ''h1''\<rparr>]\<rparr>"

section \<open>Properties of the validation schema\<close>

lemma in_concat_enumerate:
  "e \<in> set (concat (map (\<lambda>(j, x). f j x) (enumerate 0 xs))) \<longleftrightarrow>
     (\<exists>j < length xs. e \<in> set (f j (xs ! j)))"
proof
  assume "e \<in> set (concat (map (\<lambda>(j, x). f j x) (enumerate 0 xs)))"
  then obtain j x where "(j, x) \<in> set (enumerate 0 xs)" and "e \<in> set (f j x)"
    by auto
  then show "\<exists>j < length xs. e \<in> set (f j (xs ! j))"
    by (auto simp: in_set_enumerate_eq)
next
  assume "\<exists>j < length xs. e \<in> set (f j (xs ! j))"
  then obtain j where j: "j < length xs" and e: "e \<in> set (f j (xs ! j))"
    by blast
  from j have "(j, xs ! j) \<in> set (enumerate 0 xs)"
    by (simp add: in_set_enumerate_eq)
  with e show "e \<in> set (concat (map (\<lambda>(j, x). f j x) (enumerate 0 xs)))"
    by force
qed

lemma formSchema_iff:
  "e \<in> set (formSchema form) \<longleftrightarrow>
     (\<exists>i < length (injections form). e \<in> set (validate_injection i (injections form ! i)))"
  unfolding formSchema_def by (rule in_concat_enumerate)

lemma validate_selectors_iff:
  "e \<in> set (validate_selectors i injn) \<longleftrightarrow>
     (\<exists>j < length (selectors injn). e \<in> set (validate_selector i injn j (selectors injn ! j)))
     \<or> (selectors injn = [] \<and> e = min_selectors_error i)"
  unfolding validate_selectors_def set_append Un_iff in_concat_enumerate by auto

lemma duplicate_label_error_in_selector:
  "duplicate_label_error i j \<in> set (validate_selector i' injn j' s) \<longleftrightarrow>
     i' = i \<and> j' = j \<and> \<not> unique (label s) injn"
  by (auto simp: validate_selector_def validate_label_def string_required_def
      duplicate_label_error_def)

lemma duplicate_label_error_not_required:
  "duplicate_label_error i j \<notin> set (string_required p msg value)"
  by (simp add: string_required_def duplicate_label_error_def)

lemma duplicate_label_error_not_min:
  "duplicate_label_error i j \<noteq> min_selectors_error i'"
  by (simp add: duplicate_label_error_def min_selectors_error_def)

lemma duplicate_label_error_in_injection:
  "duplicate_label_error i j \<in> set (validate_injection i' injn) \<longleftrightarrow>
     i' = i \<and> j < length (selectors injn) \<and> \<not> unique (label (selectors injn ! j)) injn"
  by (auto simp: validate_injection_def validate_selectors_iff duplicate_label_error_in_selector
      duplicate_label_error_not_required duplicate_label_error_not_min)

lemma duplicate_label_error_in_form:
  "duplicate_label_error i j \<in> set (formSchema form) \<longleftrightarrow>
     i < length (injections form) \<and> j < length (selectors (injections form ! i)) \<and>
     \<not> unique (label (selectors (injections form ! i) ! j)) (injections form ! i)"
  by (auto simp: formSchema_iff duplicate_label_error_in_injection)

lemma filter_eq_nth_singleton:
  assumes "j < length xs"
  shows "length (filter (\<lambda>n. n = xs ! j) xs) = 1 \<longleftrightarrow>
         (\<forall>k < length xs. k \<noteq> j \<longrightarrow> xs ! k \<noteq> xs ! j)"
proof -
  define S where "S = {k. k < length xs \<and> xs ! k = xs ! j}"
  have len: "length (filter (\<lambda>n. n = xs ! j) xs) = card S"
    unfolding S_def by (simp add: length_filter_conv_card)
  have mem: "k \<in> S \<longleftrightarrow> k < length xs \<and> xs ! k = xs ! j" for k
    unfolding S_def by simp
  have j: "j \<in> S"
    using assms by (simp add: mem)
  show ?thesis
  proof
    assume "length (filter (\<lambda>n. n = xs ! j) xs) = 1"
    then have "card S = 1"
      by (simp add: len)
    then obtain a where a: "S = {a}"
      by (rule card_1_singletonE)
    show "\<forall>k < length xs. k \<noteq> j \<longrightarrow> xs ! k \<noteq> xs ! j"
    proof (intro allI impI notI)
      fix k
      assume "k < length xs" and "k \<noteq> j" and "xs ! k = xs ! j"
      then have "k \<in> S"
        by (simp add: mem)
      with j a have "k = a" and "j = a"
        by simp_all
      with \<open>k \<noteq> j\<close> show False
        by simp
    qed
  next
    assume other: "\<forall>k < length xs. k \<noteq> j \<longrightarrow> xs ! k \<noteq> xs ! j"
    have "S = {j}"
    proof (rule set_eqI)
      fix k
      show "k \<in> S \<longleftrightarrow> k \<in> {j}"
        using other assms by (auto simp: mem)
    qed
    then show "length (filter (\<lambda>n. n = xs ! j) xs) = 1"
      by (simp add: len)
  qed
qed

lemma unique_sibling_iff:
  assumes "j < length (selectors injn)"
  shows "unique (label (selectors injn ! j)) injn \<longleftrightarrow>
         (\<forall>k < length (selectors injn). k \<noteq> j \<longrightarrow>
            label (selectors injn ! k) \<noteq> label (selectors injn ! j))"
proof -
  let ?names = "map label (selectors injn)"
  have j: "j < length ?names" using assms by simp
  have "unique (label (selectors injn ! j)) injn \<longleftrightarrow>
        length (filter (\<lambda>n. n = ?names ! j) ?names) = 1"
    using assms by (auto simp: unique_def Let_def)
  also have "\<dots> \<longleftrightarrow> (\<forall>k < length ?names. k \<noteq> j \<longrightarrow> ?names ! k \<noteq> ?names ! j)"
    by (rule filter_eq_nth_singleton [OF j])
  also have "\<dots> \<longleftrightarrow> (\<forall>k < length (selectors injn). k \<noteq> j \<longrightarrow>
            label (selectors injn ! k) \<noteq> label (selectors injn ! j))"
    using assms by simp
  finally show ?thesis .
qed

section \<open>Properties of the duplicate-label test\<close>

text \<open>
  Claim C1. A label field gets the duplicate-label error exactly when another selector of
  the same injection has the identical label. So two selectors of one injection with the
  same label are both flagged, and a selector whose label no sibling shares is not flagged,
  whatever labels the selectors of the other injections have.
\<close>

theorem duplicate_label_error_iff_sibling:
  assumes "i < length (injections form)"
    and "j < length (selectors (injections form ! i))"
  shows "duplicate_label_error i j \<in> set (formSchema form) \<longleftrightarrow>
         (\<exists>k < length (selectors (injections form ! i)). k \<noteq> j \<and>
            label (selectors (injections form ! i) ! k) =
            label (selectors (injections form ! i) ! j))"
  using assms by (auto simp: duplicate_label_error_in_form unique_sibling_iff)

theorem duplicate_label_error_iff_sibling_witness:
  "duplicate_label_error 0 0 \<in> set (formSchema example_duplicate_form)
   \<and> duplicate_label_error 0 1 \<in> set (formSchema example_duplicate_form)
   \<and> duplicate_label_error 1 0 \<notin> set (formSchema example_duplicate_form)"
proof -
  have i0: "0 < length (injections example_duplicate_form)"
    and i1: "1 < length (injections example_duplicate_form)"
    by (simp_all add: example_duplicate_form_def)
  have j00: "0 < length (selectors (injections example_duplicate_form ! 0))"
    and j01: "1 < length (selectors (injections example_duplicate_form ! 0))"
    and j10: "0 < length (selectors (injections example_duplicate_form ! 1))"
    by (simp_all add: example_duplicate_form_def)
  have "duplicate_label_error 0 0 \<in> set (formSchema example_duplicate_form)"
    using duplicate_label_error_iff_sibling [OF i0 j00]
    by (simp add: example_duplicate_form_def exI [of _ 1])
  moreover have "duplicate_label_error 0 1 \<in> set (formSchema example_duplicate_form)"
    using duplicate_label_error_iff_sibling [OF i0 j01]
    by (simp add: example_duplicate_form_def exI [of _ 0])
  moreover have "duplicate_label_error 1 0 \<notin> set (formSchema example_duplicate_form)"
    using duplicate_label_error_iff_sibling [OF i1 j10]
    by (simp add: example_duplicate_form_def)
  ultimately show ?thesis
    by blast
qed

text \<open>
  Claim C10. Whether the test passes for a label depends on the injection only through
  the multiset of its selectors' labels: two injections with the same multiset of labels
  (one a permutation of the other, or with other ids and CSS selectors) give the same
  outcome for every label, and so the same set of labels that fail the test.
\<close>

theorem unique_depends_on_label_multiset:
  assumes "mset (map label (selectors a)) = mset (map label (selectors b))"
  shows "unique value a = unique value b
       \<and> {l. l \<in> set (map label (selectors a)) \<and> \<not> unique l a} =
           {l. l \<in> set (map label (selectors b)) \<and> \<not> unique l b}"
proof -
  have *: "unique v x \<longleftrightarrow>
      size (mset (map label (selectors x))) = 0 \<or>
      size (filter_mset (\<lambda>n. n = v) (mset (map label (selectors x)))) = 1" for v x
    unfolding unique_def Let_def mset_filter [symmetric] size_mset by simp
  have same: "unique v a = unique v b" for v
    unfolding * assms ..
  have "set (map label (selectors a)) = set (map label (selectors b))"
    using assms by (rule mset_eq_setD)
  with same show ?thesis
    by simp
qed

theorem unique_depends_on_label_multiset_witness:
  "mset (map label (selectors example_labels)) =
     mset (map label (selectors example_labels_permuted))
   \<and> unique ''link'' example_labels = unique ''link'' example_labels_permuted
   \<and> unique ''img'' example_labels = unique ''img'' example_labels_permuted"
proof -
  have h: "mset (map label (selectors example_labels)) =
      mset (map label (selectors example_labels_permuted))"
    by (simp add: example_labels_def example_labels_permuted_def)
  from h unique_depends_on_label_multiset [OF h, of "''link''"]
    unique_depends_on_label_multiset [OF h, of "''img''"]
  show ?thesis
    by blast
qed

section \<open>Properties of submit\<close>

lemma min_selectors_error_in_form:
  assumes "i < length (injections form)" and "selectors (injections form ! i) = []"
  shows "min_selectors_error i \<in> set (formSchema form)"
proof -
  have "min_selectors_error i \<in> set (validate_selectors i (injections form ! i))"
    using assms(2) by (simp add: validate_selectors_def)
  then have "min_selectors_error i \<in> set (validate_injection i (injections form ! i))"
    by (simp add: validate_injection_def)
  with assms(1) show ?thesis
    unfolding formSchema_iff by blast
qed

lemma handleSubmit_invalid:
  assumes "formSchema (formValues (control pg)) \<noteq> []"
  shows "handleSubmit onValid pg =
         pg\<lparr>control := (control pg)\<lparr>errors := formSchema (formValues (control pg))\<rparr>\<rparr>"
  using assms by (simp add: handleSubmit_def Let_def)

lemma handleSubmit_valid:
  assumes "formSchema (formValues (control pg)) = []"
  shows "handleSubmit onValid pg =
         onValid (formValues (control pg)) (pg\<lparr>control := (control pg)\<lparr>errors := []\<rparr>\<rparr>)"
  using assms by (simp add: handleSubmit_def Let_def)

lemma onSubmit_resolved:
  assumes "mutateAsync \<lparr>mutation_feedId = userFeed_id,
             mutation_data = \<lparr>articleInjections = injections d\<rparr>\<rparr> = Inr r"
  shows "onSubmit t userFeed_id mutateAsync d pg =
         pg\<lparr>mutations := mutations pg @
               [\<lparr>mutation_feedId = userFeed_id,
                 mutation_data = \<lparr>articleInjections = injections d\<rparr>\<rparr>],
            control := reset d (control pg),
            notifications := notifications pg @
               [notifySuccess (t ''common.success.savedChanges'')]\<rparr>"
  using assms by (simp add: onSubmit_def Let_def)

lemma onSubmit_rejected:
  assumes "mutateAsync \<lparr>mutation_feedId = userFeed_id,
             mutation_data = \<lparr>articleInjections = injections d\<rparr>\<rparr> = Inl err"
  shows "onSubmit t userFeed_id mutateAsync d pg =
         pg\<lparr>mutations := mutations pg @
               [\<lparr>mutation_feedId = userFeed_id,
                 mutation_data = \<lparr>articleInjections = injections d\<rparr>\<rparr>],
            notifications := notifications pg @
               [notifyError (t ''common.errors.failedToSave'') (message err)]\<rparr>"
  using assms by (simp add: onSubmit_def Let_def)

lemma formSchema_example_form: "formSchema example_form = []"
  by (simp add: formSchema_def validate_injection_def validate_selectors_def
      validate_selector_def validate_label_def string_required_def unique_def
      example_form_def example_injection_def example_img_def example_link_def)

text \<open>
  Claim C2. When some injection of the form has no selector, validation yields the
  minimum-length error for that injection's selectors, and a submit makes no call to the
  remote update: it records the errors and changes nothing else.
\<close>

theorem submit_with_empty_selectors_is_blocked:
  assumes "i < length (injections (formValues (control pg)))"
    and "selectors (injections (formValues (control pg)) ! i) = []"
  shows "min_selectors_error i \<in> set (formSchema (formValues (control pg)))
       \<and> handleSubmit (onSubmit t userFeed_id mutateAsync) pg =
           pg\<lparr>control := (control pg)\<lparr>errors := formSchema (formValues (control pg))\<rparr>\<rparr>
       \<and> mutations (handleSubmit (onSubmit t userFeed_id mutateAsync) pg) = mutations pg
       \<and> notifications (handleSubmit (onSubmit t userFeed_id mutateAsync) pg) = notifications pg"
proof -
  have err: "min_selectors_error i \<in> set (formSchema (formValues (control pg)))"
    using assms by (rule min_selectors_error_in_form)
  then have "formSchema (formValues (control pg)) \<noteq> []"
    by auto
  then have "handleSubmit (onSubmit t userFeed_id mutateAsync) pg =
      pg\<lparr>control := (control pg)\<lparr>errors := formSchema (formValues (control pg))\<rparr>\<rparr>"
    by (rule handleSubmit_invalid)
  with err show ?thesis
    by simp
qed

theorem submit_with_empty_selectors_is_blocked_witness:
  "min_selectors_error 0 \<in> set (formSchema (formValues (control example_empty_page)))
   \<and> mutations (handleSubmit (onSubmit (\<lambda>k. k) ''feed-1'' mutation_resolves) example_empty_page) = []
   \<and> notifications (handleSubmit (onSubmit (\<lambda>k. k) ''feed-1'' mutation_resolves) example_empty_page) = []"
proof -
  have i: "0 < length (injections (formValues (control example_empty_page)))"
    by (simp add: example_empty_page_def)
  have e: "selectors (injections (formValues (control example_empty_page)) ! 0) = []"
    by (simp add: example_empty_page_def)
  have "mutations example_empty_page = []" and "notifications example_empty_page = []"
    by (simp_all add: example_empty_page_def)
  with submit_with_empty_selectors_is_blocked
    [where pg = example_empty_page and t = "\<lambda>k. k" and userFeed_id = "''feed-1''"
      and mutateAsync = mutation_resolves, OF i e]
  show ?thesis
    by simp
qed

text \<open>
  Claim C3. When the form passes validation, a submit calls the remote update once, with
  the id of the current feed and the payload holding the full injections list under
  \<^verbatim>\<open>articleInjections\<close>. When the call resolves, the submitted value becomes the
  default value (the dirty baseline), the form is not dirty, and a success notification
  with the text of \<^verbatim>\<open>common.success.savedChanges\<close> is reported.
\<close>

theorem submit_success_resets_baseline:
  assumes "formSchema (formValues (control pg)) = []"
    and "mutateAsync \<lparr>mutation_feedId = userFeed_id,
           mutation_data = \<lparr>articleInjections = injections (formValues (control pg))\<rparr>\<rparr> = Inr r"
  shows "mutations (handleSubmit (onSubmit t userFeed_id mutateAsync) pg) =
           mutations pg @
           [\<lparr>mutation_feedId = userFeed_id,
             mutation_data = \<lparr>articleInjections = injections (formValues (control pg))\<rparr>\<rparr>]
       \<and> defaultValues (control (handleSubmit (onSubmit t userFeed_id mutateAsync) pg)) =
           formValues (control pg)
       \<and> formValues (control (handleSubmit (onSubmit t userFeed_id mutateAsync) pg)) =
           formValues (control pg)
       \<and> \<not> isDirty (control (handleSubmit (onSubmit t userFeed_id mutateAsync) pg))
       \<and> notifications (handleSubmit (onSubmit t userFeed_id mutateAsync) pg) =
           notifications pg @ [notifySuccess (t ''common.success.savedChanges'')]"
  unfolding handleSubmit_valid [OF assms(1)]
  using assms(2) by (simp add: onSubmit_resolved [where r = r] reset_def isDirty_def)

theorem submit_success_resets_baseline_witness:
  "formSchema (formValues (control example_page)) = []
   \<and> isDirty (control example_page)
   \<and> mutations (handleSubmit (onSubmit (\<lambda>k. k) ''feed-1'' mutation_resolves) example_page) =
       [example_variables]
   \<and> defaultValues (control (handleSubmit (onSubmit (\<lambda>k. k) ''feed-1'' mutation_resolves) example_page)) =
       example_form
   \<and> \<not> isDirty (control (handleSubmit (onSubmit (\<lambda>k. k) ''feed-1'' mutation_resolves) example_page))
   \<and> notifications (handleSubmit (onSubmit (\<lambda>k. k) ''feed-1'' mutation_resolves) example_page) =
       [notifySuccess ''common.success.savedChanges'']"
proof -
  have v: "formSchema (formValues (control example_page)) = []"
    by (simp add: example_page_def formSchema_example_form)
  have m: "mutation_resolves \<lparr>mutation_feedId = ''feed-1'',
      mutation_data = \<lparr>articleInjections = injections (formValues (control example_page))\<rparr>\<rparr> = Inr ()"
    by (simp add: mutation_resolves_def)
  have d: "isDirty (control example_page)"
    by (simp add: isDirty_def example_page_def example_form_def example_injection_def)
  have p: "formValues (control example_page) = example_form"
    "mutations example_page = []" "notifications example_page = []"
    by (simp_all add: example_page_def)
  from submit_success_resets_baseline
    [where pg = example_page and t = "\<lambda>k. k" and userFeed_id = "''feed-1''"
      and mutateAsync = mutation_resolves and r = "()", OF v m] v d
  show ?thesis
    by (simp add: p example_variables_def)
qed

text \<open>
  Claim C4. When the call to the remote update rejects, the form is left exactly as it
  was: the handler changes nothing of the form's control, so the current value, the
  default value and the dirty flag after a submit are those from before it. One error
  notification is reported, with the text of \<^verbatim>\<open>common.errors.failedToSave\<close> and the
  message of the error, and the update was called once: there is no second attempt.
\<close>

theorem submit_failure_keeps_form:
  assumes "mutateAsync \<lparr>mutation_feedId = userFeed_id,
           mutation_data = \<lparr>articleInjections = injections (formValues (control pg))\<rparr>\<rparr> = Inl err"
  shows "control (onSubmit t userFeed_id mutateAsync (formValues (control pg)) pg) = control pg
       \<and> formValues (control (handleSubmit (onSubmit t userFeed_id mutateAsync) pg)) =
           formValues (control pg)
       \<and> defaultValues (control (handleSubmit (onSubmit t userFeed_id mutateAsync) pg)) =
           defaultValues (control pg)
       \<and> isDirty (control (handleSubmit (onSubmit t userFeed_id mutateAsync) pg)) =
           isDirty (control pg)
       \<and> (formSchema (formValues (control pg)) = [] \<longrightarrow>
           notifications (handleSubmit (onSubmit t userFeed_id mutateAsync) pg) =
             notifications pg @ [notifyError (t ''common.errors.failedToSave'') (message err)]
           \<and> mutations (handleSubmit (onSubmit t userFeed_id mutateAsync) pg) =
             mutations pg @
             [\<lparr>mutation_feedId = userFeed_id,
               mutation_data = \<lparr>articleInjections = injections (formValues (control pg))\<rparr>\<rparr>])"
proof (cases "formSchema (formValues (control pg)) = []")
  case True
  show ?thesis
    unfolding handleSubmit_valid [OF True]
    using assms by (simp add: onSubmit_rejected [where err = err] isDirty_def)
next
  case False
  show ?thesis
    unfolding handleSubmit_invalid [OF False]
    using assms False by (simp add: onSubmit_rejected [where err = err] isDirty_def)
qed

theorem submit_failure_keeps_form_witness:
  "formSchema (formValues (control example_page)) = []
   \<and> control (onSubmit (\<lambda>k. k) ''feed-1'' mutation_rejects example_form example_page) =
       control example_page
   \<and> isDirty (control (handleSubmit (onSubmit (\<lambda>k. k) ''feed-1'' mutation_rejects) example_page))
   \<and> defaultValues (control (handleSubmit (onSubmit (\<lambda>k. k) ''feed-1'' mutation_rejects) example_page)) =
       \<lparr>injections = []\<rparr>
   \<and> notifications (handleSubmit (onSubmit (\<lambda>k. k) ''feed-1'' mutation_rejects) example_page) =
       [notifyError ''common.errors.failedToSave'' ''Network Error'']
   \<and> mutations (handleSubmit (onSubmit (\<lambda>k. k) ''feed-1'' mutation_rejects) example_page) =
       [example_variables]"
proof -
  have v: "formSchema (formValues (control example_page)) = []"
    by (simp add: example_page_def formSchema_example_form)
  have m: "mutation_rejects \<lparr>mutation_feedId = ''feed-1'',
      mutation_data = \<lparr>articleInjections = injections (formValues (control example_page))\<rparr>\<rparr> =
      Inl \<lparr>message = ''Network Error''\<rparr>"
    by (simp add: mutation_rejects_def)
  have d: "isDirty (control example_page)"
    by (simp add: isDirty_def example_page_def example_form_def example_injection_def)
  have p: "formValues (control example_page) = example_form"
    "defaultValues (control example_page) = \<lparr>injections = []\<rparr>"
    "mutations example_page = []" "notifications example_page = []"
    by (simp_all add: example_page_def)
  from submit_failure_keeps_form
    [where pg = example_page and t = "\<lambda>k. k" and userFeed_id = "''feed-1''"
      and mutateAsync = mutation_rejects and err = "\<lparr>message = ''Network Error''\<rparr>", OF m] v d
  show ?thesis
    by (simp add: p example_variables_def)
qed

section \<open>Properties of adding and deleting selectors\<close>

lemma injections_update_selectors:
  assumes "i < length (injections form)"
  shows "injections (update_selectors i f form) =
         (injections form)[i := (injections form ! i)\<lparr>selectors := f (selectors (injections form ! i))\<rparr>]"
  using assms by (simp add: update_selectors_def)





lemma length_remove_fieldArray:
  "length (remove_fieldArray xs i) = (if i < length xs then length xs - 1 else length xs)"
  by (auto simp: remove_fieldArray_def)

lemma set_remove_fieldArray: "set (remove_fieldArray xs i) \<subseteq> set xs"
proof -
  have "set (take i xs) \<subseteq> set xs" and "set (drop (Suc i) xs) \<subseteq> set xs"
    by (rule set_take_subset, rule set_drop_subset)
  then show ?thesis
    by (simp add: remove_fieldArray_def)
qed

lemma CloseButton_click_nonempty:
  assumes "sels \<noteq> []"
  shows "CloseButton_click sels j \<noteq> []"
proof (cases "length sels = 1")
  case True
  with assms show ?thesis
    by (simp add: CloseButton_click_def CloseButton_isDisabled_def)
next
  case False
  with assms have "length sels \<noteq> 0" and "length sels \<noteq> 1"
    by simp_all
  then have "2 \<le> length sels"
    by arith
  then have "0 < length (remove_fieldArray sels j)"
    unfolding length_remove_fieldArray using assms by (cases "j < length sels") simp_all
  with False show ?thesis
    by (auto simp: CloseButton_click_def CloseButton_isDisabled_def CloseButton_onClick_def)
qed

lemma delete_step_selectors_nonempty:
  assumes "selectors_nonempty form"
  shows "selectors_nonempty (delete_step form a)"
proof (cases a)
  case (Delete_selector i j)
  show ?thesis
  proof (cases "i < length (injections form)")
    case True
    let ?new = "(injections form ! i)
        \<lparr>selectors := CloseButton_click (selectors (injections form ! i)) j\<rparr>"
    from assms True have "selectors (injections form ! i) \<noteq> []"
      by (simp add: selectors_nonempty_def list_all_length)
    then have new: "selectors ?new \<noteq> []"
      by (simp add: CloseButton_click_nonempty)
    have "set ((injections form)[i := ?new]) \<subseteq> insert ?new (set (injections form))"
      by (rule set_update_subset_insert)
    with assms new have "\<forall>x \<in> set ((injections form)[i := ?new]). selectors x \<noteq> []"
      unfolding selectors_nonempty_def list_all_iff by blast
    with True Delete_selector show ?thesis
      by (simp add: selectors_nonempty_def list_all_iff injections_update_selectors)
  next
    case False
    with assms Delete_selector show ?thesis
      by (simp add: update_selectors_def)
  qed
next
  case (Delete_injection i)
  from assms set_remove_fieldArray [of "injections form" i]
  have "\<forall>x \<in> set (remove_fieldArray (injections form) i). selectors x \<noteq> []"
    unfolding selectors_nonempty_def list_all_iff by blast
  with Delete_injection show ?thesis
    by (simp add: selectors_nonempty_def list_all_iff)
qed

lemma foldl_delete_step_selectors_nonempty:
  "selectors_nonempty form \<Longrightarrow> selectors_nonempty (foldl delete_step form as)"
  by (induction as arbitrary: form) (simp_all add: delete_step_selectors_nonempty)

text \<open>
  Claim C7. The delete control of a row is disabled exactly when the injection has one
  selector, and a click on it then changes nothing. A click never empties a non-empty
  list of selectors, so after any sequence of delete actions on a form in which every
  injection has a selector, every injection that is left still has one.
\<close>

theorem delete_control_keeps_last_selector:
  "(CloseButton_isDisabled sels \<longleftrightarrow> length sels = 1)
   \<and> (length sels = 1 \<longrightarrow> CloseButton_click sels j = sels)
   \<and> (sels \<noteq> [] \<longrightarrow> CloseButton_click sels j \<noteq> [])
   \<and> (selectors_nonempty form \<longrightarrow> selectors_nonempty (foldl delete_step form as))"
proof -
  have "CloseButton_isDisabled sels \<longleftrightarrow> length sels = 1"
    by (simp add: CloseButton_isDisabled_def)
  moreover have "length sels = 1 \<longrightarrow> CloseButton_click sels j = sels"
    by (simp add: CloseButton_click_def CloseButton_isDisabled_def)
  moreover have "sels \<noteq> [] \<longrightarrow> CloseButton_click sels j \<noteq> []"
    by (simp add: CloseButton_click_nonempty)
  moreover have "selectors_nonempty form \<longrightarrow> selectors_nonempty (foldl delete_step form as)"
    by (simp add: foldl_delete_step_selectors_nonempty)
  ultimately show ?thesis
    by blast
qed

theorem delete_control_keeps_last_selector_witness:
  "CloseButton_isDisabled [example_img]
   \<and> CloseButton_click [example_img] 0 = [example_img]
   \<and> selectors_nonempty example_form
   \<and> selectors_nonempty
       (foldl delete_step example_form [Delete_selector 0 0, Delete_selector 0 0])
   \<and> foldl delete_step example_form [Delete_selector 0 0, Delete_selector 0 0] =
       \<lparr>injections = [\<lparr>inj_id = ''i1'', sourceField = ''title'', selectors = [example_link]\<rparr>]\<rparr>"
proof -
  have n: "selectors_nonempty example_form"
    by (simp add: selectors_nonempty_def example_form_def example_injection_def)
  have l: "length [example_img] = 1"
    by simp
  have f: "foldl delete_step example_form [Delete_selector 0 0, Delete_selector 0 0] =
       \<lparr>injections = [\<lparr>inj_id = ''i1'', sourceField = ''title'', selectors = [example_link]\<rparr>]\<rparr>"
    by (simp add: update_selectors_def CloseButton_click_def CloseButton_isDisabled_def
        CloseButton_onClick_def remove_fieldArray_def example_form_def example_injection_def)
  from delete_control_keeps_last_selector
    [of "[example_img]" 0 example_form "[Delete_selector 0 0, Delete_selector 0 0]"] n l f
  show ?thesis
    by simp
qed

text \<open>
  Claim C9. The handler of the delete control is \<^verbatim>\<open>remove\<close> itself, with no test of
  the length: at a position of the list it gives a list one shorter, in which the entries
  before the position keep their place and each later entry moves one place down, and on
  a list of one selector it gives the empty list. Only the disabled state of the control
  keeps that last selector.
\<close>

theorem remove_has_no_length_guard:
  assumes "i < length sels"
  shows "CloseButton_onClick sels i = take i sels @ drop (Suc i) sels
       \<and> length (CloseButton_onClick sels i) = length sels - 1
       \<and> (\<forall>k < i. CloseButton_onClick sels i ! k = sels ! k)
       \<and> (\<forall>k. i \<le> k \<and> k < length sels - 1 \<longrightarrow> CloseButton_onClick sels i ! k = sels ! Suc k)
       \<and> CloseButton_onClick [s] 0 = []
       \<and> CloseButton_click [s] 0 = [s]"
proof -
  have eq: "CloseButton_onClick sels i = take i sels @ drop (Suc i) sels"
    by (simp add: CloseButton_onClick_def remove_fieldArray_def)
  have len: "length (CloseButton_onClick sels i) = length sels - 1"
    using assms by (simp add: CloseButton_onClick_def length_remove_fieldArray)
  have before: "CloseButton_onClick sels i ! k = sels ! k" if "k < i" for k
    using that assms by (simp add: eq nth_append)
  have after: "CloseButton_onClick sels i ! k = sels ! Suc k"
    if "i \<le> k" and "k < length sels - 1" for k
  proof -
    from that assms have "k - i + Suc i = Suc k" and "Suc i + (k - i) \<le> length sels"
      by simp_all
    with that assms show ?thesis
      by (simp add: eq nth_append min_def)
  qed
  have one: "CloseButton_onClick [s] 0 = []" and dis: "CloseButton_click [s] 0 = [s]"
    by (simp_all add: CloseButton_onClick_def remove_fieldArray_def CloseButton_click_def
        CloseButton_isDisabled_def)
  from eq len before after one dis show ?thesis
    by blast
qed

theorem remove_has_no_length_guard_witness:
  "(1::nat) < length [example_img, example_link, example_img]
   \<and> CloseButton_onClick [example_img, example_link, example_img] 1 = [example_img, example_img]
   \<and> CloseButton_onClick [example_link] 0 = []
   \<and> CloseButton_click [example_link] 0 = [example_link]"
proof -
  have i: "1 < length [example_img, example_link, example_img]"
    by simp
  from remove_has_no_length_guard [OF i, of example_link] i show ?thesis
    by simp
qed

section \<open>Properties of the preview input\<close>

lemma fst_previewInput: "fst (previewInput cell injn sel) = previewInput_deps injn sel"
  by (auto simp: previewInput_def useMemo_def split: option.splits)

lemma previewInput_first:
  "previewInput None injn sel = (previewInput_deps injn sel, previewInput_factory injn sel)"
  by (simp add: previewInput_def useMemo_def)

lemma previewInput_same_deps:
  assumes "previewInput_deps injn' sel' = d"
  shows "previewInput (Some (d, v)) injn' sel' = (d, v)"
  using assms by (simp add: previewInput_def useMemo_def)

lemma previewInput_other_deps:
  assumes "previewInput_deps injn' sel' \<noteq> d"
  shows "previewInput (Some (d, v)) injn' sel' =
         (previewInput_deps injn' sel', previewInput_factory injn' sel')"
  using assms by (auto simp: previewInput_def useMemo_def)

text \<open>
  After the renders of a row, the kept value is the factory's result for the injection and
  selector of one of those renders, whose dependencies are those of the last render.
\<close>

lemma previewInput_renders_kept:
  assumes "cell = None \<or>
      (\<exists>a b. (a, b) \<in> S \<and> cell = Some (previewInput_deps a b, previewInput_factory a b))"
    and "ps \<noteq> []"
  shows "\<exists>a b. (a, b) \<in> S \<union> set ps \<and>
      previewInput_deps a b = previewInput_deps (fst (last ps)) (snd (last ps)) \<and>
      previewInput_renders cell ps =
        Some (previewInput_deps (fst (last ps)) (snd (last ps)), previewInput_factory a b)"
  using assms
proof (induction ps arbitrary: cell S)
  case Nil
  then show ?case by simp
next
  case (Cons p ps)
  obtain injn sel where p: "p = (injn, sel)"
    by (cases p)
  let ?cell = "previewInput cell injn sel"
  have kept: "\<exists>a b. (a, b) \<in> insert (injn, sel) S \<and>
      ?cell = (previewInput_deps a b, previewInput_factory a b) \<and>
      previewInput_deps a b = previewInput_deps injn sel"
  proof (cases cell)
    case None
    then show ?thesis
      by (auto simp: previewInput_first)
  next
    case (Some c)
    with Cons.prems(1) obtain a b where ab: "(a, b) \<in> S"
      and c: "cell = Some (previewInput_deps a b, previewInput_factory a b)"
      by auto
    show ?thesis
    proof (cases "previewInput_deps injn sel = previewInput_deps a b")
      case True
      then have "?cell = (previewInput_deps a b, previewInput_factory a b)"
        unfolding c by (rule previewInput_same_deps)
      with ab True show ?thesis
        by auto
    next
      case False
      then have "?cell = (previewInput_deps injn sel, previewInput_factory injn sel)"
        unfolding c by (rule previewInput_other_deps)
      then show ?thesis
        by auto
    qed
  qed
  then obtain a b where ab: "(a, b) \<in> insert (injn, sel) S"
    and cell': "?cell = (previewInput_deps a b, previewInput_factory a b)"
    and deps: "previewInput_deps a b = previewInput_deps injn sel"
    by blast
  show ?case
  proof (cases "ps = []")
    case True
    have "(a, b) \<in> S \<union> set (p # ps)"
      using ab p by auto
    moreover have "previewInput_deps a b =
        previewInput_deps (fst (last (p # ps))) (snd (last (p # ps)))"
      using deps p True by simp
    moreover have "previewInput_renders cell (p # ps) =
        Some (previewInput_deps (fst (last (p # ps))) (snd (last (p # ps))),
              previewInput_factory a b)"
      using cell' deps p True by simp
    ultimately show ?thesis
      by blast
  next
    case False
    have "Some ?cell = None \<or>
        (\<exists>a b. (a, b) \<in> insert (injn, sel) S \<and>
           Some ?cell = Some (previewInput_deps a b, previewInput_factory a b))"
      using ab cell' by blast
    from Cons.IH [OF this False] obtain a' b'
      where ab': "(a', b') \<in> insert (injn, sel) S \<union> set ps"
        and deps': "previewInput_deps a' b' =
          previewInput_deps (fst (last ps)) (snd (last ps))"
        and res: "previewInput_renders (Some ?cell) ps =
          Some (previewInput_deps (fst (last ps)) (snd (last ps)), previewInput_factory a' b')"
      by blast
    have "(a', b') \<in> S \<union> set (p # ps)"
      using ab' p by auto
    moreover have "previewInput_deps a' b' =
        previewInput_deps (fst (last (p # ps))) (snd (last (p # ps)))"
      using deps' False by simp
    moreover have "previewInput_renders cell (p # ps) =
        Some (previewInput_deps (fst (last (p # ps))) (snd (last (p # ps))),
              previewInput_factory a' b')"
      using res False p by simp
    ultimately show ?thesis
      by blast
  qed
qed

lemma selector_eqI:
  fixes a b :: selector
  assumes "sel_id a = sel_id b" and "label a = label b" and "cssSelector a = cssSelector b"
  shows "a = b"
  using assms by simp

text \<open>
  Claim C8. The value computed for a row is a list of one injection that has the id and
  the source field of the row's injection and, as its selectors, the row's selector alone;
  for a row of the form, these are the injection at the row's injection position and the
  selector at its selector position. A render whose three dependencies (the injection's
  source field, the selector's CSS selector and label) equal those of the render before
  keeps the value of that render; a render where one of them differs computes the value
  anew. Along the renders of a row, whose injection and selector keep their ids, the
  preview input is therefore always the one for the current injection and selector.
\<close>

theorem previewInput_single_selector_memoised:
  "snd (previewInput None injn sel) =
     [\<lparr>inj_id = inj_id injn, sourceField = sourceField injn, selectors = [sel]\<rparr>]
   \<and> (i < length (injections form) \<and> j < length (selectors (injections form ! i)) \<longrightarrow>
       map_option snd (SelectorForm_previewInput None form i j) =
         Some [\<lparr>inj_id = inj_id (injections form ! i),
                sourceField = sourceField (injections form ! i),
                selectors = [selectors (injections form ! i) ! j]\<rparr>])
   \<and> (previewInput_deps injn' sel' = previewInput_deps injn sel \<longrightarrow>
       previewInput (Some (previewInput cell injn sel)) injn' sel' = previewInput cell injn sel)
   \<and> (previewInput_deps injn' sel' \<noteq> previewInput_deps injn sel \<longrightarrow>
       snd (previewInput (Some (previewInput cell injn sel)) injn' sel') =
         [\<lparr>inj_id = inj_id injn', sourceField = sourceField injn', selectors = [sel']\<rparr>])
   \<and> ((\<forall>p \<in> set ps. inj_id (fst p) = inj_id injn \<and> sel_id (snd p) = sel_id sel) \<longrightarrow>
       previewInput_renders None (ps @ [(injn, sel)]) =
         Some (previewInput_deps injn sel,
               [\<lparr>inj_id = inj_id injn, sourceField = sourceField injn, selectors = [sel]\<rparr>]))"
proof -
  have first: "snd (previewInput None injn sel) =
     [\<lparr>inj_id = inj_id injn, sourceField = sourceField injn, selectors = [sel]\<rparr>]"
    by (simp add: previewInput_first previewInput_factory_def)
  have row: "map_option snd (SelectorForm_previewInput None form i j) =
         Some [\<lparr>inj_id = inj_id (injections form ! i),
                sourceField = sourceField (injections form ! i),
                selectors = [selectors (injections form ! i) ! j]\<rparr>]"
    if "i < length (injections form)" and "j < length (selectors (injections form ! i))"
    using that
    by (simp add: SelectorForm_previewInput_def watch_def Let_def previewInput_first
        previewInput_factory_def)
  obtain d v where c: "previewInput cell injn sel = (d, v)"
    by (cases "previewInput cell injn sel")
  have d: "d = previewInput_deps injn sel"
    using fst_previewInput [of cell injn sel] c by simp
  have same: "previewInput (Some (previewInput cell injn sel)) injn' sel' =
      previewInput cell injn sel"
    if "previewInput_deps injn' sel' = previewInput_deps injn sel"
    unfolding c using that d by (simp add: previewInput_same_deps)
  have other: "snd (previewInput (Some (previewInput cell injn sel)) injn' sel') =
         [\<lparr>inj_id = inj_id injn', sourceField = sourceField injn', selectors = [sel']\<rparr>]"
    if "previewInput_deps injn' sel' \<noteq> previewInput_deps injn sel"
    unfolding c using that d by (simp add: previewInput_other_deps previewInput_factory_def)
  have renders: "previewInput_renders None (ps @ [(injn, sel)]) =
         Some (previewInput_deps injn sel,
               [\<lparr>inj_id = inj_id injn, sourceField = sourceField injn, selectors = [sel]\<rparr>])"
    if ids: "\<forall>p \<in> set ps. inj_id (fst p) = inj_id injn \<and> sel_id (snd p) = sel_id sel"
  proof -
    have "\<exists>a b. (a, b) \<in> {} \<union> set (ps @ [(injn, sel)]) \<and>
        previewInput_deps a b = previewInput_deps (fst (last (ps @ [(injn, sel)])))
          (snd (last (ps @ [(injn, sel)]))) \<and>
        previewInput_renders None (ps @ [(injn, sel)]) =
          Some (previewInput_deps (fst (last (ps @ [(injn, sel)])))
            (snd (last (ps @ [(injn, sel)]))), previewInput_factory a b)"
      by (rule previewInput_renders_kept) simp_all
    then obtain a b where mem: "(a, b) \<in> set (ps @ [(injn, sel)])"
      and deps: "previewInput_deps a b = previewInput_deps injn sel"
      and res: "previewInput_renders None (ps @ [(injn, sel)]) =
          Some (previewInput_deps injn sel, previewInput_factory a b)"
      by auto
    from mem ids have "inj_id a = inj_id injn" and "sel_id b = sel_id sel"
      by auto
    moreover from deps have "sourceField a = sourceField injn"
      and "cssSelector b = cssSelector sel" and "label b = label sel"
      by (simp_all add: previewInput_deps_def)
    ultimately have "b = sel" and "inj_id a = inj_id injn" and "sourceField a = sourceField injn"
      by (simp_all add: selector_eqI)
    then show ?thesis
      unfolding res by (simp add: previewInput_factory_def)
  qed
  from first row same other renders show ?thesis
    by blast
qed

theorem previewInput_single_selector_memoised_witness:
  "snd (the (SelectorForm_previewInput None example_form 0 1)) =
     [\<lparr>inj_id = ''i1'', sourceField = ''title'', selectors = [example_link]\<rparr>]
   \<and> previewInput (Some (previewInput None example_injection example_img))
       example_injection (example_img\<lparr>sel_id := ''s9''\<rparr>) =
     previewInput None example_injection example_img
   \<and> snd (previewInput (Some (previewInput None example_injection example_img))
       example_injection example_link) =
     [\<lparr>inj_id = ''i1'', sourceField = ''title'', selectors = [example_link]\<rparr>]
   \<and> previewInput_renders None
       ([(example_injection, example_img\<lparr>label := ''image''\<rparr>)] @
        [(example_injection, example_img)]) =
     Some ((''title'', ''img'', ''img''),
           [\<lparr>inj_id = ''i1'', sourceField = ''title'', selectors = [example_img]\<rparr>])"
proof -
  have ij: "0 < length (injections example_form) \<and>
      1 < length (selectors (injections example_form ! 0))"
    by (simp add: example_form_def example_injection_def)
  have same: "previewInput_deps example_injection (example_img\<lparr>sel_id := ''s9''\<rparr>) =
      previewInput_deps example_injection example_img"
    by (simp add: previewInput_deps_def)
  have other: "previewInput_deps example_injection example_link \<noteq>
      previewInput_deps example_injection example_img"
    by (simp add: previewInput_deps_def example_img_def example_link_def)
  have ids: "\<forall>p \<in> set [(example_injection, example_img\<lparr>label := ''image''\<rparr>)].
      inj_id (fst p) = inj_id example_injection \<and> sel_id (snd p) = sel_id example_img"
    by simp
  have v: "inj_id example_injection = ''i1''" "sourceField example_injection = ''title''"
    "injections example_form ! 0 = example_injection"
    "selectors example_injection ! Suc 0 = example_link"
    "previewInput_deps example_injection example_img = (''title'', ''img'', ''img'')"
    by (simp_all add: example_form_def example_injection_def previewInput_deps_def
        example_img_def)
  have r: "SelectorForm_previewInput None example_form 0 1 \<noteq> None"
    by (simp add: SelectorForm_previewInput_def watch_def example_form_def
        example_injection_def)
  from previewInput_single_selector_memoised
    [of example_injection example_img 0 example_form 1 example_injection
      "example_img\<lparr>sel_id := ''s9''\<rparr>" None
      "[(example_injection, example_img\<lparr>label := ''image''\<rparr>)]"]
    previewInput_single_selector_memoised
    [of example_injection example_img 0 example_form 1 example_injection
      example_link None "[]"]
    ij same other ids r
  show ?thesis
    by (auto simp: v)
qed

section \<open>Properties of the feed-update client\<close>

lemma UpdatFeedOutputSchema_iff:
  "UpdatFeedOutputSchema FeedSchema js \<longleftrightarrow>
     (\<exists>members r. js = JSON_object members \<and> map_of members ''result'' = Some r \<and> FeedSchema r)"
  by (cases js) (auto simp: UpdatFeedOutputSchema_def split: option.splits)

lemma fetchRest_requests: "snd (fetchRest network url opts validateSchema) = [(url, opts)]"
  by (simp add: fetchRest_def)

lemma fetchRest_returns_iff:
  "fst (fetchRest network url opts validateSchema) = Inr js \<longleftrightarrow>
     network url opts = Reply True js \<and> validateSchema js"
  by (cases "network url opts") (auto simp: fetchRest_def)

lemma fetchRest_fails_iff:
  "fst (fetchRest network url opts validateSchema) = Inl e \<longleftrightarrow>
     (e = Transport_failure \<and>
        (network url opts = No_reply \<or> (\<exists>js. network url opts = Reply False js)))
     \<or> (e = Schema_mismatch \<and>
        (\<exists>js. network url opts = Reply True js \<and> \<not> validateSchema js))"
  by (cases "network url opts") (auto simp: fetchRest_def)

lemma object_members_JSON_stringify:
  "(k, v) \<in> set (object_members (JSON_stringify obj)) \<longleftrightarrow> (k, Some v) \<in> set obj"
  by (induction obj) (auto simp: JSON_stringify_def split: option.splits)

lemma JSON_stringify_with_injections:
  "JSON_stringify [(''text'', t), (''articleInjections'', Some (injections_json injs))] =
     JSON_object ((case t of None \<Rightarrow> [] | Some x \<Rightarrow> [(''text'', x)]) @
       [(''articleInjections'', injections_json injs)])"
  by (simp add: JSON_stringify_def split: option.splits)

text \<open>
  Claim C5. The client issues one request: a \<^verbatim>\<open>PATCH\<close> to the path of the feed with
  the given id, whose body is the serialised details. The body has exactly the keys of the
  details that have a value, with those values; details that hold the injections list
  under \<^verbatim>\<open>articleInjections\<close> give a body that includes the full list. The call
  returns the response body exactly when the reply has a success status and the body is an
  object whose \<^verbatim>\<open>result\<close> matches the feed's schema; it fails with a transport
  failure when there is no reply or the status is not a success, and with a schema
  mismatch when the status is a success and the body does not match.
\<close>

theorem updateFeed_request_and_result:
  "snd (updateFeed network FeedSchema options) =
     [(''/api/v1/feeds/'' @ feedId options,
       \<lparr>http_method = ''PATCH'', body = JSON_stringify (details options)\<rparr>)]
   \<and> ((k, v) \<in> set (object_members (JSON_stringify (details options))) \<longleftrightarrow>
       (k, Some v) \<in> set (details options))
   \<and> snd (updateFeed network FeedSchema
       \<lparr>feedId = fid,
        details = [(''text'', t), (''articleInjections'', Some (injections_json injs))]\<rparr>) =
     [(''/api/v1/feeds/'' @ fid,
       \<lparr>http_method = ''PATCH'',
        body = JSON_object ((case t of None \<Rightarrow> [] | Some x \<Rightarrow> [(''text'', x)]) @
          [(''articleInjections'', injections_json injs)])\<rparr>)]
   \<and> (fst (updateFeed network FeedSchema options) = Inr js \<longleftrightarrow>
       network (''/api/v1/feeds/'' @ feedId options)
         \<lparr>http_method = ''PATCH'', body = JSON_stringify (details options)\<rparr> = Reply True js
       \<and> (\<exists>members r. js = JSON_object members \<and> map_of members ''result'' = Some r \<and>
            FeedSchema r))
   \<and> (fst (updateFeed network FeedSchema options) = Inl e \<longleftrightarrow>
       (e = Transport_failure \<and>
          (network (''/api/v1/feeds/'' @ feedId options)
             \<lparr>http_method = ''PATCH'', body = JSON_stringify (details options)\<rparr> = No_reply
           \<or> (\<exists>js'. network (''/api/v1/feeds/'' @ feedId options)
             \<lparr>http_method = ''PATCH'', body = JSON_stringify (details options)\<rparr> =
               Reply False js')))
       \<or> (e = Schema_mismatch \<and>
          (\<exists>js'. network (''/api/v1/feeds/'' @ feedId options)
             \<lparr>http_method = ''PATCH'', body = JSON_stringify (details options)\<rparr> =
               Reply True js'
             \<and> \<not> (\<exists>members r. js' = JSON_object members \<and>
                  map_of members ''result'' = Some r \<and> FeedSchema r))))"
proof -
  have req: "snd (updateFeed network FeedSchema opts) =
     [(''/api/v1/feeds/'' @ feedId opts,
       \<lparr>http_method = ''PATCH'', body = JSON_stringify (details opts)\<rparr>)]" for opts
    by (simp add: updateFeed_def fetchRest_requests)
  have inj: "snd (updateFeed network FeedSchema
       \<lparr>feedId = fid,
        details = [(''text'', t), (''articleInjections'', Some (injections_json injs))]\<rparr>) =
     [(''/api/v1/feeds/'' @ fid,
       \<lparr>http_method = ''PATCH'',
        body = JSON_object ((case t of None \<Rightarrow> [] | Some x \<Rightarrow> [(''text'', x)]) @
          [(''articleInjections'', injections_json injs)])\<rparr>)]"
    unfolding req by (simp add: JSON_stringify_with_injections)
  have rest: "(fst (updateFeed network FeedSchema options) = Inr js \<longleftrightarrow>
       network (''/api/v1/feeds/'' @ feedId options)
         \<lparr>http_method = ''PATCH'', body = JSON_stringify (details options)\<rparr> = Reply True js
       \<and> (\<exists>members r. js = JSON_object members \<and> map_of members ''result'' = Some r \<and>
            FeedSchema r))
   \<and> (fst (updateFeed network FeedSchema options) = Inl e \<longleftrightarrow>
       (e = Transport_failure \<and>
          (network (''/api/v1/feeds/'' @ feedId options)
             \<lparr>http_method = ''PATCH'', body = JSON_stringify (details options)\<rparr> = No_reply
           \<or> (\<exists>js'. network (''/api/v1/feeds/'' @ feedId options)
             \<lparr>http_method = ''PATCH'', body = JSON_stringify (details options)\<rparr> =
               Reply False js')))
       \<or> (e = Schema_mismatch \<and>
          (\<exists>js'. network (''/api/v1/feeds/'' @ feedId options)
             \<lparr>http_method = ''PATCH'', body = JSON_stringify (details options)\<rparr> =
               Reply True js'
             \<and> \<not> (\<exists>members r. js' = JSON_object members \<and>
                  map_of members ''result'' = Some r \<and> FeedSchema r))))"
    unfolding updateFeed_def fetchRest_returns_iff fetchRest_fails_iff UpdatFeedOutputSchema_iff
    by simp
  from req [of options] object_members_JSON_stringify [of k v "details options"] inj rest
  show ?thesis
    by blast
qed

theorem updateFeed_request_and_result_witness:
  "updateFeed network_result (\<lambda>r. True) example_options_injections =
     (Inr (JSON_object [(''result'', JSON_object [])]),
      [(''/api/v1/feeds/42'',
        \<lparr>http_method = ''PATCH'',
         body = JSON_object
           [(''articleInjections'', injections_json (injections example_form))]\<rparr>)])
   \<and> snd (updateFeed network_result (\<lambda>r. True) example_options) =
      [(''/api/v1/feeds/42'',
        \<lparr>http_method = ''PATCH'',
         body = JSON_object [(''text'', JSON_string ''New article'')]\<rparr>)]
   \<and> fst (updateFeed network_no_result (\<lambda>r. True) example_options) = Inl Schema_mismatch
   \<and> fst (updateFeed network_failure_status (\<lambda>r. True) example_options) = Inl Transport_failure
   \<and> fst (updateFeed network_down (\<lambda>r. True) example_options) = Inl Transport_failure"
proof -
  have o: "feedId example_options = ''42''"
    "JSON_stringify (details example_options) =
       JSON_object [(''text'', JSON_string ''New article'')]"
    by (simp_all add: example_options_def JSON_stringify_def)
  have oi: "feedId example_options_injections = ''42''"
    "JSON_stringify (details example_options_injections) =
       JSON_object [(''articleInjections'', injections_json (injections example_form))]"
    by (simp_all add: example_options_injections_def JSON_stringify_def)
  have "snd (updateFeed network_result (\<lambda>r. True) example_options_injections) =
      [(''/api/v1/feeds/42'',
        \<lparr>http_method = ''PATCH'',
         body = JSON_object
           [(''articleInjections'', injections_json (injections example_form))]\<rparr>)]"
    and "fst (updateFeed network_result (\<lambda>r. True) example_options_injections) =
      Inr (JSON_object [(''result'', JSON_object [])])"
    using updateFeed_request_and_result
      [of network_result "\<lambda>r. True" example_options_injections _ _ _ _ _
        "JSON_object [(''result'', JSON_object [])]"]
    by (simp_all add: oi network_result_def)
  then have ok: "updateFeed network_result (\<lambda>r. True) example_options_injections =
     (Inr (JSON_object [(''result'', JSON_object [])]),
      [(''/api/v1/feeds/42'',
        \<lparr>http_method = ''PATCH'',
         body = JSON_object
           [(''articleInjections'', injections_json (injections example_form))]\<rparr>)])"
    by (simp add: prod_eq_iff)
  have text_only: "snd (updateFeed network_result (\<lambda>r. True) example_options) =
      [(''/api/v1/feeds/42'',
        \<lparr>http_method = ''PATCH'',
         body = JSON_object [(''text'', JSON_string ''New article'')]\<rparr>)]"
    using updateFeed_request_and_result [of network_result "\<lambda>r. True" example_options]
    by (simp add: o)
  have mismatch: "fst (updateFeed network_no_result (\<lambda>r. True) example_options) =
      Inl Schema_mismatch"
    using updateFeed_request_and_result
      [where network = network_no_result and FeedSchema = "\<lambda>r. True"
        and options = example_options and e = Schema_mismatch]
    by (simp add: o network_no_result_def)
  have status: "fst (updateFeed network_failure_status (\<lambda>r. True) example_options) =
      Inl Transport_failure"
    using updateFeed_request_and_result
      [where network = network_failure_status and FeedSchema = "\<lambda>r. True"
        and options = example_options and e = Transport_failure]
    by (simp add: o network_failure_status_def)
  have down: "fst (updateFeed network_down (\<lambda>r. True) example_options) =
      Inl Transport_failure"
    using updateFeed_request_and_result
      [where network = network_down and FeedSchema = "\<lambda>r. True"
        and options = example_options and e = Transport_failure]
    by (simp add: o network_down_def)
  from ok text_only mismatch status down show ?thesis
    by blast
qed

end
